theory Spec2Isabelle
  imports Main "HOL-Library.Sublist" "HOL-Library.Word"
begin

section \<open>Package snmp: OID validation (IsOid, IsOidPartOf, GetSubOid)\<close>

text \<open>
  Go strings are byte sequences; they are modelled as \<open>string\<close> (a list of 8-bit
  characters). \<open>len\<close> is \<open>length\<close>. A slice expression \<open>s[lo:hi]\<close> on a string
  panics at run time unless \<open>lo \<le> hi \<le> len(s)\<close>; the panic is a value of the model.
\<close>

datatype panic = SliceBoundsOutOfRange

definition slice :: "string \<Rightarrow> nat \<Rightarrow> nat \<Rightarrow> panic + string" where
  \<comment> \<open>Go's \<open>s[lo:hi]\<close>\<close>
  "slice s lo hi =
     (if lo \<le> hi \<and> hi \<le> length s then Inr (take (hi - lo) (drop lo s))
      else Inl SliceBoundsOutOfRange)"

definition slice_to :: "string \<Rightarrow> nat \<Rightarrow> panic + string" where
  \<comment> \<open>Go's \<open>s[:hi]\<close>\<close>
  "slice_to s hi = slice s 0 hi"

definition slice_from :: "string \<Rightarrow> nat \<Rightarrow> panic + string" where
  \<comment> \<open>Go's \<open>s[lo:]\<close>\<close>
  "slice_from s lo = slice s lo (length s)"

definition is_digit :: "char \<Rightarrow> bool" where
  \<comment> \<open>\<open>char >= '0' && char <= '9'\<close>, a comparison of character codes\<close>
  "is_digit c = ((of_char (CHR ''0'') :: nat) \<le> of_char c \<and> (of_char c :: nat) \<le> of_char (CHR ''9''))"

text \<open>
  The loop of \<open>IsOid\<close> over \<open>oid[1:]\<close>, with the variable \<open>lastChar\<close> as argument.
  \<open>None\<close> is the early \<open>return false\<close> inside the loop; \<open>Some c\<close> is the value of
  \<open>lastChar\<close> when the loop has run to its end. Go's \<open>range\<close> decodes UTF-8; a byte
  outside ASCII gives a rune that is neither \<open>'.'\<close> nor a digit, as the byte itself does
  here, so the loop returns false at the same place.
\<close>

fun IsOid_loop :: "char \<Rightarrow> string \<Rightarrow> char option" where
  "IsOid_loop lastChar [] = Some lastChar"
| "IsOid_loop lastChar (char # rest) =
     (if char = CHR ''.'' then
        (if lastChar = CHR ''.'' then None else IsOid_loop char rest)
      else if \<not> is_digit char then None
      else IsOid_loop char rest)"

definition IsOid :: "string \<Rightarrow> bool" where
  "IsOid oid =
     (if oid = [] \<or> take 1 oid \<noteq> ''.'' \<or> length oid < 2 then False
      else case IsOid_loop (hd oid) (drop 1 oid) of
             None \<Rightarrow> False
           | Some lastChar \<Rightarrow> (if lastChar = CHR ''.'' then False else True))"

definition IsOidPartOf :: "string \<Rightarrow> string \<Rightarrow> panic + bool" where
  "IsOidPartOf oid baseOid =
     (if \<not> IsOid oid \<or> \<not> IsOid baseOid then Inr False
      else
        let lenBase = length baseOid in
        case slice_to oid lenBase of
          Inl p \<Rightarrow> Inl p
        | Inr pre \<Rightarrow>
            if pre = baseOid then
              (if length oid = lenBase then Inr True
               else case slice oid lenBase (lenBase + 1) of
                      Inl p \<Rightarrow> Inl p
                    | Inr sep \<Rightarrow> if sep = ''.'' then Inr True else Inr False)
            else Inr False)"

definition GetSubOid :: "string \<Rightarrow> string \<Rightarrow> panic + string" where
  "GetSubOid oid baseOid =
     (if \<not> IsOid oid \<or> \<not> IsOid baseOid then Inr []
      else case IsOidPartOf oid baseOid of
             Inl p \<Rightarrow> Inl p
           | Inr part \<Rightarrow>
               if \<not> part then Inr []
               else let l = length baseOid in slice_from oid (l + 1))"


text \<open>
  The Path invariant of the specification (data model), stated on its own: non-empty,
  starts with the separator, no two consecutive separators, does not end with a
  separator, every other character is a decimal digit.
\<close>

definition is_Path :: "string \<Rightarrow> bool" where
  "is_Path s \<longleftrightarrow>
     s \<noteq> [] \<and> hd s = CHR ''.'' \<and>
     (\<forall>i. Suc i < length s \<longrightarrow> \<not> (s ! i = CHR ''.'' \<and> s ! Suc i = CHR ''.'')) \<and>
     last s \<noteq> CHR ''.'' \<and>
     (\<forall>c\<in>set s. c \<noteq> CHR ''.'' \<longrightarrow> c \<in> set ''0123456789'')"

fun consecutive_separators :: "string \<Rightarrow> bool" where
  "consecutive_separators (a # b # cs) =
     ((a = CHR ''.'' \<and> b = CHR ''.'') \<or> consecutive_separators (b # cs))"
| "consecutive_separators _ = False"

section \<open>Package snmp: SetVersion\<close>

text \<open>
  The client is gosnmp's \<open>GoSNMP\<close> struct, reduced to the fields the repository
  assigns. \<open>SetVersion\<close> mutates the client through a pointer and returns an error:
  the model returns the client after the call and the error (\<open>None\<close> is \<open>nil\<close>).
\<close>

type_synonym error = string

datatype SnmpVersion = Version1 | Version2c | Version3

record GoSNMP =
  Target :: string
  Community :: string
  Timeout :: "64 word"
  Retries :: int
  Version :: SnmpVersion

definition SetVersion :: "GoSNMP \<Rightarrow> string \<Rightarrow> GoSNMP \<times> error option" where
  "SetVersion client version =
     (if version = ''1'' then (client\<lparr>Version := Version1\<rparr>, None)
      else if version = ''2'' \<or> version = ''2c'' then (client\<lparr>Version := Version2c\<rparr>, None)
      else if version = ''3'' then
        (client\<lparr>Version := Version3\<rparr>, Some ''SNMPv3 config not implemented'')
      else (client, Some (''unknown SNMP version: '' @ version)))"

section \<open>Package nagios\<close>

text \<open>
  Modelled from the spec: package \<open>nagios\<close> (the status constants, \<open>Overall\<close> with \<open>Add\<close>,
  \<open>GetStatus\<close> and \<open>GetOutput\<close>, \<open>Exit\<close> and \<open>ExitError\<close>) is used by \<open>main\<close> and by the
  drive test but is not among the source files. The severities and their exit codes
  0/1/2/3 are those of the specification's output boundary; the field names
  \<open>Warnings\<close>, \<open>Criticals\<close> and \<open>Summary\<close> are the ones \<open>main\<close> reads and writes.
\<close>

datatype severity = OK | Warning | Critical | Unknown

fun rc :: "severity \<Rightarrow> int" where
  "rc OK = 0"
| "rc Warning = 1"
| "rc Critical = 2"
| "rc Unknown = 3"

record Overall =
  OKs :: nat
  Warnings :: nat
  Criticals :: nat
  Unknowns :: nat
  Summary :: string
  Outputs :: "string list"

definition Overall_zero :: Overall where
  \<comment> \<open>\<open>nagios.Overall{}\<close>\<close>
  "Overall_zero = \<lparr>OKs = 0, Warnings = 0, Criticals = 0, Unknowns = 0, Summary = [], Outputs = []\<rparr>"

text \<open>
  Modelled from the spec: \<open>Add(severity, message)\<close> appends the message to an internal
  ordered log and increments the counter for that severity.
\<close>

fun Add :: "Overall \<Rightarrow> severity \<Rightarrow> string \<Rightarrow> Overall" where
  "Add ov OK msg = ov\<lparr>OKs := OKs ov + 1, Outputs := Outputs ov @ [msg]\<rparr>"
| "Add ov Warning msg = ov\<lparr>Warnings := Warnings ov + 1, Outputs := Outputs ov @ [msg]\<rparr>"
| "Add ov Critical msg = ov\<lparr>Criticals := Criticals ov + 1, Outputs := Outputs ov @ [msg]\<rparr>"
| "Add ov Unknown msg = ov\<lparr>Unknowns := Unknowns ov + 1, Outputs := Outputs ov @ [msg]\<rparr>"

text \<open>
  Modelled from the spec: \<open>Overall()\<close> returns CRITICAL if any CRITICAL was added, else
  WARNING if any WARNING was added, else OK if at least one record was added, else
  UNKNOWN if nothing was ever added.
\<close>

definition GetStatus :: "Overall \<Rightarrow> severity" where
  "GetStatus ov =
     (if Criticals ov > 0 then Critical
      else if Warnings ov > 0 then Warning
      else if OKs ov + Warnings ov + Criticals ov + Unknowns ov > 0 then OK
      else Unknown)"

text \<open>
  Modelled from the spec: \<open>Render()\<close> returns a multi-line output, the summary line
  followed by the per-record messages in the order of the log, one per line.
\<close>

fun join_lines :: "string list \<Rightarrow> string" where
  "join_lines [] = []"
| "join_lines [l] = l"
| "join_lines (l # ls) = l @ [CHR 0x0A] @ join_lines ls"

definition GetOutput :: "Overall \<Rightarrow> string" where
  "GetOutput ov = join_lines (Summary ov # Outputs ov)"

text \<open>A sequence of \<open>Add\<close> calls on a fresh aggregator, in call order.\<close>

definition add_all :: "(severity \<times> string) list \<Rightarrow> Overall" where
  "add_all calls = foldl (\<lambda>ov (state, msg). Add ov state msg) Overall_zero calls"

section \<open>Decimal output of integers (\<open>%d\<close>)\<close>

function decimal :: "nat \<Rightarrow> string" where
  "decimal n =
     (if n < 10 then [''0123456789'' ! n]
      else decimal (n div 10) @ [''0123456789'' ! (n mod 10)])"
  by pat_completeness auto
termination
  by (relation "measure (\<lambda>n. n)") auto

definition fmt_d :: "int \<Rightarrow> string" where
  "fmt_d i = (if i < 0 then ''-'' @ decimal (nat (- i)) else decimal (nat i))"

section \<open>Package phy_drv: PhysicalDrive.GetNagiosStatus\<close>

text \<open>The fields are those the test \<open>TestPhysicalDrive_GetNagiosStatus\<close> sets.\<close>

record PhysicalDrive =
  Id :: string
  Model :: string
  FwRev :: string
  Serial :: string
  Status :: string
  Hours :: int

text \<open>
  Modelled from the spec: \<open>GetNagiosStatus\<close> of a drive is called by \<open>main\<close> and by the
  test but is not among the source files, and neither are the list of affected models
  and the order on firmware revisions. Both are parameters here: \<open>affected\<close> pairs an
  affected model identifier with the firmware revision that carries the fix (exact,
  case-sensitive match on the model), and \<open>at_least fw fix\<close> says that the installed
  revision \<open>fw\<close> is at or above \<open>fix\<close>.
  The rules, in order: a device status other than \<open>ok\<close> is CRITICAL with the status in
  the message; an affected model is OK with "firmware update applied" when its firmware
  is at or above the fix and CRITICAL with "affected by FW bug" otherwise; any other
  drive is OK with the neutral description. The description echoes identifier, model,
  serial, firmware and hours in the form the test matches,
  \<open>(1.1 ) model=... serial=ABC123 firmware=HPD1 hours=1337\<close>, the identifier
  left-justified in four columns.
\<close>

definition pad_right :: "nat \<Rightarrow> string \<Rightarrow> string" where
  "pad_right w s = s @ replicate (w - length s) CHR '' ''"

definition description :: "PhysicalDrive \<Rightarrow> string" where
  "description d =
     ''('' @ pad_right 4 (Id d) @ '') model='' @ Model d @ '' serial='' @ Serial d
       @ '' firmware='' @ FwRev d @ '' hours='' @ fmt_d (Hours d)"

definition GetNagiosStatus ::
    "(string \<times> string) list \<Rightarrow> (string \<Rightarrow> string \<Rightarrow> bool) \<Rightarrow> PhysicalDrive \<Rightarrow> severity \<times> string" where
  "GetNagiosStatus affected at_least d =
     (if Status d \<noteq> ''ok'' then (Critical, description d @ '' - status: '' @ Status d)
      else case map_of affected (Model d) of
             None \<Rightarrow> (OK, description d)
           | Some fix \<Rightarrow>
               if at_least (FwRev d) fix
               then (OK, description d @ '' - firmware update applied'')
               else (Critical, description d @ '' - affected by FW bug''))"

text \<open>
  The data of the test: the affected model \<open>VO0480JFDGT\<close> with its fixed revision
  \<open>HPD8\<close>, and an order on revisions that compares the number a revision ends in
  (\<open>HPD1\<close> is below \<open>HPD8\<close>). They instantiate the parameters in examples only.
\<close>

definition affectedDrive :: string where
  "affectedDrive = ''VO0480JFDGT''"

definition affectedDriveFixed :: string where
  "affectedDriveFixed = ''HPD8''"

definition trailing_number :: "string \<Rightarrow> nat" where
  "trailing_number s =
     foldl (\<lambda>n c. 10 * n + (of_char c - of_char (CHR ''0''))) 0 (rev (takeWhile is_digit (rev s)))"

definition revision_at_least :: "string \<Rightarrow> string \<Rightarrow> bool" where
  "revision_at_least fw fix \<longleftrightarrow> trailing_number fix \<le> trailing_number fw"

definition test_drive :: PhysicalDrive where
  "test_drive = \<lparr>Id = ''1.1'', Model = ''OTHERDRIVE'', FwRev = ''HPD1'', Serial = ''ABC123'',
                  Status = ''ok'', Hours = 1337\<rparr>"

section \<open>The programs\<close>

text \<open>
  A run of \<open>main\<close> ends in \<open>nagios.Exit\<close>, which hands a status and a text to the
  monitoring system and ends the process. The outcome of a run records both, and the
  calls the run made into the packages \<open>hp\<close>, \<open>snmp\<close> and gosnmp up to that point, in
  order, so that "before" and "never" can be read off it.
\<close>

datatype ('c, 'd) call =
    Call_os_Open
  | Call_LoadCpqDaPhyDrvTable
  | Call_SetVersion
  | Call_Connect
  | Call_ConnectIPv4
  | Call_ConnectIPv6
  | Call_GetCpqDaPhyDrvTable
  | Call_ListIds
  | Call_GetControllersFromTable
  | Call_GetPhysicalDrivesFromTable
  | Call_Controller_GetNagiosStatus 'c
  | Call_Drive_GetNagiosStatus 'd

record ('c, 'd) outcome =
  exit_code :: int
  message :: string
  calls :: "('c, 'd) call list"

text \<open>
  Modelled from the spec: \<open>nagios.Exit(rc, output)\<close> ends the process with exit status
  \<open>rc\<close> and the text it is given; \<open>nagios.ExitError(err)\<close> presents the error as a terminal
  check failure of the UNKNOWN class, exit status 3, with the error's text. The layout
  of the printed line is outside the model.
\<close>

definition nagios_Exit :: "int \<Rightarrow> string \<Rightarrow> ('c, 'd) call list \<Rightarrow> ('c, 'd) outcome" where
  "nagios_Exit code text log = \<lparr>exit_code = code, message = text, calls = log\<rparr>"

definition nagios_ExitError :: "error \<Rightarrow> ('c, 'd) call list \<Rightarrow> ('c, 'd) outcome" where
  "nagios_ExitError err log = nagios_Exit (rc Unknown) err log"

subsection \<open>The evaluation loops\<close>

text \<open>
  \<open>for _, drive := range drives { driveStatus, desc := drive.GetNagiosStatus();
  overall.Add(driveStatus, desc); countDrives += 1 }\<close>, and the same loop over the
  controllers. The loop state is the aggregator, the counter and the call log.
\<close>

definition drive_step ::
    "('d \<Rightarrow> severity \<times> string) \<Rightarrow> Overall \<times> nat \<times> ('c, 'd) call list \<Rightarrow> 'd
       \<Rightarrow> Overall \<times> nat \<times> ('c, 'd) call list" where
  "drive_step eval st drive =
     (case st of (overall, countDrives, log) \<Rightarrow>
        (case eval drive of (driveStatus, desc) \<Rightarrow>
           (Add overall driveStatus desc, countDrives + 1, log @ [Call_Drive_GetNagiosStatus drive])))"

definition controller_step ::
    "('c \<Rightarrow> severity \<times> string) \<Rightarrow> Overall \<times> nat \<times> ('c, 'd) call list \<Rightarrow> 'c
       \<Rightarrow> Overall \<times> nat \<times> ('c, 'd) call list" where
  "controller_step eval st controller =
     (case st of (overall, countControllers, log) \<Rightarrow>
        (case eval controller of (controllerStatus, desc) \<Rightarrow>
           (Add overall controllerStatus desc, countControllers + 1,
            log @ [Call_Controller_GetNagiosStatus controller])))"

subsection \<open>\<open>main\<close> of check_hp_firmware, from the loaded tables on\<close>

text \<open>
  The tables: \<open>main\<close> reads \<open>cntlrTable.Snmp.Values\<close> and \<open>driveTable.Snmp.Values\<close>, maps
  from OID to value, and only takes their \<open>len\<close>. The table types themselves are not
  among the source files; a table is a record with the field \<open>Snmp\<close>, whose \<open>Values\<close>
  are the entries of the map.
\<close>

record SnmpTable =
  Values :: "(string \<times> string) list"

record CpqDaTable =
  Snmp :: SnmpTable

type_synonym CpqDaCntlrTable = CpqDaTable
type_synonym CpqDaPhyDrvTable = CpqDaTable

text \<open>
  The extractors and the evaluations of the packages \<open>cntlr\<close> and \<open>phy_drv\<close> are not among
  the source files either; \<open>main\<close> takes them as parameters, whatever they compute.
\<close>

record ('c, 'd) hp =
  cntlr_GetControllersFromTable :: "CpqDaCntlrTable \<Rightarrow> error + 'c list"
  phy_drv_GetPhysicalDrivesFromTable :: "CpqDaPhyDrvTable \<Rightarrow> error + 'd list"
  Controller_GetNagiosStatus :: "'c \<Rightarrow> severity \<times> string"
  Drive_GetNagiosStatus :: "'d \<Rightarrow> severity \<times> string"

text \<open>
  The second \<open>main\<close> of the file that holds two, from the first statement after both
  tables are loaded (\<open>if len(cntlrTable.Snmp.Values) == 0\<close>) to the final
  \<open>nagios.Exit\<close>. The first \<open>main\<close> of that file runs the same four checks in the same
  order before its additional iLO step.
\<close>

definition summary_of :: "severity \<Rightarrow> nat \<Rightarrow> nat \<Rightarrow> Overall \<Rightarrow> string" where
  \<comment> \<open>the \<open>switch status\<close>; \<open>summary\<close> stays the empty string in the remaining case\<close>
  "summary_of status countControllers countDrives overall =
     (case status of
        OK \<Rightarrow> ''All '' @ fmt_d (int countControllers) @ '' controllers and ''
                @ fmt_d (int countDrives) @ '' drives seem fine''
      | Warning \<Rightarrow> ''Found '' @ fmt_d (int (Warnings overall)) @ '' warnings''
      | Critical \<Rightarrow> ''Found '' @ fmt_d (int (Criticals overall)) @ '' critical problems''
      | Unknown \<Rightarrow> [])"

definition main :: "('c, 'd) hp \<Rightarrow> CpqDaCntlrTable \<Rightarrow> CpqDaPhyDrvTable \<Rightarrow> ('c, 'd) outcome" where
  "main pkg cntlrTable driveTable =
     (if length (Values (Snmp cntlrTable)) = 0
      then nagios_Exit 3 ''No HP controller data found!'' []
      else case cntlr_GetControllersFromTable pkg cntlrTable of
        Inl err \<Rightarrow> nagios_ExitError err [Call_GetControllersFromTable]
      | Inr controllers \<Rightarrow>
          if length (Values (Snmp driveTable)) = 0
          then nagios_Exit 3 ''No HP drive data found!'' [Call_GetControllersFromTable]
          else case phy_drv_GetPhysicalDrivesFromTable pkg driveTable of
            Inl err \<Rightarrow>
              nagios_ExitError err [Call_GetControllersFromTable, Call_GetPhysicalDrivesFromTable]
          | Inr drives \<Rightarrow>
              (case foldl (controller_step (Controller_GetNagiosStatus pkg))
                      (Overall_zero, 0, [Call_GetControllersFromTable, Call_GetPhysicalDrivesFromTable])
                      controllers of
                 (overall1, countControllers, log1) \<Rightarrow>
                   (case foldl (drive_step (Drive_GetNagiosStatus pkg)) (overall1, 0, log1) drives of
                      (overall, countDrives, log) \<Rightarrow>
                        let status = GetStatus overall;
                            summary = summary_of status countControllers countDrives overall
                        in nagios_Exit (rc status) (GetOutput (overall\<lparr>Summary := summary\<rparr>)) log)))"

subsection \<open>\<open>main\<close> of check_hp_disk_firmware (main.go)\<close>

text \<open>
  The run after the command line is parsed, from \<open>var client\<close> on. The flags are the
  parsed values, under the names of the command line; everything outside the
  repository's source files (the file system, the network, gosnmp's default client,
  package \<open>hp\<close>) is the record \<open>world\<close>, which gives the result of each call.
\<close>

record flags =
  hostname :: string
  community :: string
  protocol :: string
  timeout :: "64 word"
  snmpwalk_file :: string
  ipv4 :: bool
  ipv6 :: bool

record ('t, 'd) world =
  gosnmp_Default :: GoSNMP
  os_Open :: "string \<Rightarrow> error option"
  hp_LoadCpqDaPhyDrvTable :: "string \<Rightarrow> error + 't"
  client_Connect :: "GoSNMP \<Rightarrow> error option"
  client_ConnectIPv4 :: "GoSNMP \<Rightarrow> error option"
  client_ConnectIPv6 :: "GoSNMP \<Rightarrow> error option"
  hp_GetCpqDaPhyDrvTable :: "GoSNMP \<Rightarrow> error + 't"
  table_ListIds :: "'t \<Rightarrow> string list"
  hp_GetPhysicalDrivesFromTable :: "'t \<Rightarrow> error + 'd list"
  PhysicalDrive_GetNagiosStatus :: "'d \<Rightarrow> severity \<times> string"

text \<open>
  Lines 73 to 110: the table comes from the capture file or from the device. \<open>Inl\<close> is
  a run that ended in \<open>nagios.ExitError\<close>, \<open>Inr\<close> the table and the calls made so far.
  \<open>time.Duration(*timeout) * time.Second\<close> is a product of 64-bit integers.
\<close>

definition main_go_table ::
    "('t, 'd) world \<Rightarrow> flags \<Rightarrow> (unit, 'd) outcome + ('t \<times> (unit, 'd) call list)" where
  "main_go_table w f =
     (if snmpwalk_file f \<noteq> [] then
        (case os_Open w (snmpwalk_file f) of
           Some err \<Rightarrow> Inl (nagios_ExitError err [Call_os_Open])
         | None \<Rightarrow>
             (case hp_LoadCpqDaPhyDrvTable w (snmpwalk_file f) of
                Inl err \<Rightarrow> Inl (nagios_ExitError err [Call_os_Open, Call_LoadCpqDaPhyDrvTable])
              | Inr table \<Rightarrow> Inr (table, [Call_os_Open, Call_LoadCpqDaPhyDrvTable])))
      else
        let client0 = (gosnmp_Default w)
              \<lparr>Target := hostname f, Community := community f,
               Timeout := timeout f * 1000000000, Retries := 1\<rparr>
        in case SetVersion client0 (protocol f) of
          (client, Some err) \<Rightarrow> Inl (nagios_ExitError err [Call_SetVersion])
        | (client, None) \<Rightarrow>
            let (connect, err) =
                  (if ipv4 f then (Call_ConnectIPv4, client_ConnectIPv4 w client)
                   else if ipv6 f then (Call_ConnectIPv6, client_ConnectIPv6 w client)
                   else (Call_Connect, client_Connect w client))
            in case err of
              Some e \<Rightarrow> Inl (nagios_ExitError e [Call_SetVersion, connect])
            | None \<Rightarrow>
                (case hp_GetCpqDaPhyDrvTable w client of
                   Inl e \<Rightarrow>
                     Inl (nagios_ExitError e [Call_SetVersion, connect, Call_GetCpqDaPhyDrvTable])
                 | Inr table \<Rightarrow>
                     Inr (table, [Call_SetVersion, connect, Call_GetCpqDaPhyDrvTable])))"

definition summary_go :: "severity \<Rightarrow> string" where
  "summary_go status =
     (case status of
        OK \<Rightarrow> ''All drives seem fine''
      | Warning \<Rightarrow> ''Found warnings for drives''
      | Critical \<Rightarrow> ''Found critical problems on drives''
      | Unknown \<Rightarrow> [])"

definition main_go :: "('t, 'd) world \<Rightarrow> flags \<Rightarrow> (unit, 'd) outcome" where
  "main_go w f =
     (case main_go_table w f of
        Inl ended \<Rightarrow> ended
      | Inr (table, log0) \<Rightarrow>
          let ids = table_ListIds w table in
          if length ids = 0
          then nagios_Exit 3 ''No HP drive data found!'' (log0 @ [Call_ListIds])
          else case hp_GetPhysicalDrivesFromTable w table of
            Inl err \<Rightarrow> nagios_ExitError err (log0 @ [Call_ListIds, Call_GetPhysicalDrivesFromTable])
          | Inr drives \<Rightarrow>
              (case foldl (drive_step (PhysicalDrive_GetNagiosStatus w))
                      (Overall_zero, 0, log0 @ [Call_ListIds, Call_GetPhysicalDrivesFromTable])
                      drives of
                 (overall, countDrives, log) \<Rightarrow>
                   let status = GetStatus overall;
                       summary = summary_go status
                   in nagios_Exit (rc status) (GetOutput (overall\<lparr>Summary := summary\<rparr>)) log))"

subsection \<open>Reading an outcome\<close>


subsection \<open>Example inputs\<close>

text \<open>
  A run of \<open>main\<close> (check_hp_firmware) with an empty controller table and a drive table
  that holds one value; the packages extract one controller and the test's drive, and
  evaluate the drive with the rules of the test.
\<close>

definition no_values :: CpqDaTable where
  "no_values = \<lparr>Snmp = \<lparr>Values = []\<rparr>\<rparr>"

definition one_value :: CpqDaTable where
  "one_value = \<lparr>Snmp = \<lparr>Values = [(''.1.3.6.1.4.1.232.3.2.5.1.1.51.1.1'', ''HPD1'')]\<rparr>\<rparr>"

definition example_hp :: "(string, PhysicalDrive) hp" where
  "example_hp =
     \<lparr>cntlr_GetControllersFromTable = (\<lambda>t. Inr [''controller'']),
      phy_drv_GetPhysicalDrivesFromTable = (\<lambda>t. Inr [test_drive]),
      Controller_GetNagiosStatus = (\<lambda>c. (OK, c)),
      Drive_GetNagiosStatus = GetNagiosStatus [(affectedDrive, affectedDriveFixed)] revision_at_least\<rparr>"


text \<open>
  A run of \<open>main\<close> (check_hp_disk_firmware) against a device: no capture file, and a
  world in which every call succeeds and the table lists no drive.
\<close>

definition example_client :: GoSNMP where
  "example_client =
     \<lparr>Target = [], Community = ''public'', Timeout = 2000000000, Retries = 3, Version = Version2c\<rparr>"

definition example_flags :: flags where
  "example_flags =
     \<lparr>hostname = ''localhost'', community = ''public'', protocol = ''2c'', timeout = 15,
      snmpwalk_file = [], ipv4 = False, ipv6 = False\<rparr>"

definition example_world :: "(string list, PhysicalDrive) world" where
  "example_world =
     \<lparr>gosnmp_Default = example_client,
      os_Open = (\<lambda>name. None),
      hp_LoadCpqDaPhyDrvTable = (\<lambda>name. Inr []),
      client_Connect = (\<lambda>client. None),
      client_ConnectIPv4 = (\<lambda>client. None),
      client_ConnectIPv6 = (\<lambda>client. None),
      hp_GetCpqDaPhyDrvTable = (\<lambda>client. Inr []),
      table_ListIds = (\<lambda>table. table),
      hp_GetPhysicalDrivesFromTable = (\<lambda>table. Inr []),
      PhysicalDrive_GetNagiosStatus = GetNagiosStatus [(affectedDrive, affectedDriveFixed)] revision_at_least\<rparr>"

section \<open>Properties of the OID functions\<close>

subsection \<open>IsOid\<close>

lemma is_digit_iff: "is_digit c \<longleftrightarrow> c \<in> set ''0123456789''"
proof
  assume "is_digit c"
  then have "(48::nat) \<le> of_char c" "(of_char c :: nat) \<le> 57"
    by (simp_all add: is_digit_def)
  then have "(of_char c :: nat) \<in> of_char ` set ''0123456789''"
    by simp arith
  then obtain d where d: "d \<in> set ''0123456789''" "(of_char c :: nat) = of_char d"
    by blast
  from d(2) have "c = d"
    by (simp only: of_char_eq_iff)
  with d(1) show "c \<in> set ''0123456789''"
    by simp
next
  assume "c \<in> set ''0123456789''"
  then show "is_digit c"
    by (auto simp: is_digit_def)
qed

lemma consecutive_separators_nth:
  "consecutive_separators s \<longleftrightarrow> (\<exists>i. Suc i < length s \<and> s ! i = CHR ''.'' \<and> s ! Suc i = CHR ''.'')"
proof (induction s rule: consecutive_separators.induct)
  case (1 a b cs)
  show ?case
  proof
    assume "consecutive_separators (a # b # cs)"
    then consider "a = CHR ''.'' \<and> b = CHR ''.''" | "consecutive_separators (b # cs)"
      by auto
    then show "\<exists>i. Suc i < length (a # b # cs) \<and> (a # b # cs) ! i = CHR ''.'' \<and> (a # b # cs) ! Suc i = CHR ''.''"
    proof cases
      case 1
      then show ?thesis by (intro exI [of _ 0]) simp
    next
      case 2
      with "1.IH" obtain i where "Suc i < length (b # cs)" "(b # cs) ! i = CHR ''.''" "(b # cs) ! Suc i = CHR ''.''"
        by blast
      then show ?thesis by (intro exI [of _ "Suc i"]) simp
    qed
  next
    assume "\<exists>i. Suc i < length (a # b # cs) \<and> (a # b # cs) ! i = CHR ''.'' \<and> (a # b # cs) ! Suc i = CHR ''.''"
    then obtain i where i: "Suc i < length (a # b # cs)" "(a # b # cs) ! i = CHR ''.''" "(a # b # cs) ! Suc i = CHR ''.''"
      by blast
    show "consecutive_separators (a # b # cs)"
    proof (cases i)
      case 0
      with i show ?thesis by simp
    next
      case (Suc j)
      with i have "Suc j < length (b # cs) \<and> (b # cs) ! j = CHR ''.'' \<and> (b # cs) ! Suc j = CHR ''.''"
        by simp
      with "1.IH" show ?thesis by auto
    qed
  qed
qed simp_all

lemma IsOid_loop_Some:
  "IsOid_loop l cs = Some r \<longleftrightarrow>
     (\<forall>c\<in>set cs. c = CHR ''.'' \<or> is_digit c) \<and> \<not> consecutive_separators (l # cs) \<and> r = last (l # cs)"
proof (induction cs arbitrary: l)
  case Nil
  show ?case by auto
next
  case (Cons c cs)
  show ?case
    by (simp add: Cons.IH)
qed

lemma not_digit_dot: "\<not> is_digit CHR ''.''"
  by (simp add: is_digit_def)

lemma IsOid_iff:
  "IsOid s \<longleftrightarrow>
     s \<noteq> [] \<and> hd s = CHR ''.'' \<and> \<not> consecutive_separators s \<and> last s \<noteq> CHR ''.'' \<and>
     (\<forall>c\<in>set s. c \<noteq> CHR ''.'' \<longrightarrow> is_digit c)"
proof (cases s)
  case Nil
  then show ?thesis by (simp add: IsOid_def)
next
  case (Cons a cs)
  show ?thesis
  proof (cases "a = CHR ''.''")
    case False
    with Cons show ?thesis by (simp add: IsOid_def)
  next
    case True
    show ?thesis
    proof (cases cs)
      case Nil
      with Cons True show ?thesis by (simp add: IsOid_def)
    next
      case (Cons b bs)
      have "IsOid s \<longleftrightarrow> (\<exists>r. IsOid_loop a cs = Some r \<and> r \<noteq> CHR ''.'')"
        using \<open>s = a # cs\<close> True Cons by (auto simp: IsOid_def split: option.splits)
      also have "\<dots> \<longleftrightarrow> (\<forall>c\<in>set cs. c = CHR ''.'' \<or> is_digit c) \<and> \<not> consecutive_separators (a # cs) \<and> last (a # cs) \<noteq> CHR ''.''"
        unfolding IsOid_loop_Some by blast
      finally show ?thesis
        using \<open>s = a # cs\<close> True by auto
    qed
  qed
qed

lemma is_Path_consecutive:
  "is_Path s \<longleftrightarrow>
     s \<noteq> [] \<and> hd s = CHR ''.'' \<and> \<not> consecutive_separators s \<and> last s \<noteq> CHR ''.'' \<and>
     (\<forall>c\<in>set s. c \<noteq> CHR ''.'' \<longrightarrow> is_digit c)"
proof -
  have a: "(\<forall>i. Suc i < length s \<longrightarrow> \<not> (s ! i = CHR ''.'' \<and> s ! Suc i = CHR ''.''))
             \<longleftrightarrow> \<not> consecutive_separators s"
    unfolding consecutive_separators_nth by blast
  have b: "(\<forall>c\<in>set s. c \<noteq> CHR ''.'' \<longrightarrow> c \<in> set ''0123456789'')
             \<longleftrightarrow> (\<forall>c\<in>set s. c \<noteq> CHR ''.'' \<longrightarrow> is_digit c)"
    by (simp only: is_digit_iff)
  show ?thesis
    unfolding is_Path_def a b ..
qed

lemma is_Path_length:
  assumes "is_Path s"
  shows "2 \<le> length s"
proof -
  from assms have p: "s \<noteq> []" "hd s = CHR ''.''" "last s \<noteq> CHR ''.''"
    by (simp_all add: is_Path_consecutive)
  from p(1) obtain a cs where s: "s = a # cs"
    by (cases s) simp_all
  with p(2,3) have "cs \<noteq> []"
    by (cases cs) simp_all
  with s show ?thesis
    by (cases cs) simp_all
qed

text \<open>
  C4. For every string \<open>s\<close>, \<open>IsOid s\<close> is true exactly when \<open>s\<close> is non-empty, begins
  with the separator, contains no two consecutive separators, does not end with a
  separator, and every character other than the separator is a decimal digit
  (\<open>is_Path\<close>); and it is false for every string shorter than two characters, the empty
  string among them.
\<close>

theorem IsOid_iff_is_Path:
  "(IsOid s \<longleftrightarrow> is_Path s) \<and> (length s < 2 \<longrightarrow> \<not> IsOid s)"
proof -
  have "IsOid s \<longleftrightarrow> is_Path s"
    unfolding IsOid_iff is_Path_consecutive ..
  moreover have "\<not> is_Path s" if "length s < 2"
    using that is_Path_length [of s] by auto
  ultimately show ?thesis
    by blast
qed

theorem IsOid_iff_is_Path_witness:
  "IsOid ''.1.1'' \<and> is_Path ''.1.1'' \<and>
   \<not> IsOid ''1.1'' \<and> \<not> is_Path ''1.1'' \<and>
   \<not> IsOid ''.1..1'' \<and> \<not> is_Path ''.1..1'' \<and>
   \<not> IsOid ''.1.1.'' \<and> \<not> is_Path ''.1.1.'' \<and>
   length ''.'' < 2 \<and> \<not> IsOid ''.'' \<and> \<not> IsOid ''''"
proof -
  have "IsOid ''.1.1''" "\<not> IsOid ''1.1''" "\<not> IsOid ''.1..1''" "\<not> IsOid ''.1.1.''"
    by (simp_all add: IsOid_def is_digit_def)
  moreover have "length ''.'' < 2" "length '''' < 2"
    by simp_all
  ultimately show ?thesis
    using IsOid_iff_is_Path [of "''.1.1''"] IsOid_iff_is_Path [of "''1.1''"]
      IsOid_iff_is_Path [of "''.1..1''"] IsOid_iff_is_Path [of "''.1.1.''"]
      IsOid_iff_is_Path [of "''.''"] IsOid_iff_is_Path [of "''''"]
    by blast
qed

subsection \<open>IsOidPartOf\<close>

text \<open>
  What \<open>IsOidPartOf\<close> returns whenever the first slice expression is within bounds:
  true exactly when both arguments are OIDs and \<open>oid\<close> equals \<open>baseOid\<close> or begins with
  \<open>baseOid\<close> followed by a separator.
\<close>

lemma IsOidPartOf_not_shorter:
  assumes "\<not> (IsOid oid \<and> IsOid baseOid \<and> length oid < length baseOid)"
  shows "IsOidPartOf oid baseOid =
           Inr (IsOid oid \<and> IsOid baseOid \<and> (oid = baseOid \<or> prefix (baseOid @ ''.'') oid))"
proof (cases "IsOid oid \<and> IsOid baseOid")
  case False
  then show ?thesis by (auto simp: IsOidPartOf_def)
next
  case True
  with assms have len: "length baseOid \<le> length oid" by simp
  show ?thesis
  proof (cases "take (length baseOid) oid = baseOid")
    case False
    then have "oid \<noteq> baseOid" "\<not> prefix (baseOid @ ''.'') oid"
      by (auto simp: prefix_def)
    with True len False show ?thesis
      by (simp add: IsOidPartOf_def slice_to_def slice_def)
  next
    case pre: True
    show ?thesis
    proof (cases "length oid = length baseOid")
      case True
      with pre have "oid = baseOid" by simp
      with \<open>IsOid oid \<and> IsOid baseOid\<close> show ?thesis
        by (simp add: IsOidPartOf_def slice_to_def slice_def)
    next
      case False
      with len have lt: "length baseOid < length oid" by simp
      from pre obtain rest where oid: "oid = baseOid @ rest"
        by (metis append_take_drop_id)
      with lt obtain c cs where rest: "rest = c # cs"
        by (cases rest) auto
      have "prefix (baseOid @ ''.'') oid \<longleftrightarrow> c = CHR ''.''"
        by (auto simp: oid rest)
      moreover have "oid \<noteq> baseOid" using False by auto
      moreover have "slice oid (length baseOid) (length baseOid + 1) = Inr [c]"
        by (simp add: slice_def oid rest)
      ultimately show ?thesis
        using \<open>IsOid oid \<and> IsOid baseOid\<close> pre len False
        by (simp add: IsOidPartOf_def slice_to_def slice_def)
    qed
  qed
qed

lemma IsOidPartOf_refl: "IsOid p \<Longrightarrow> IsOidPartOf p p = Inr True"
  by (simp add: IsOidPartOf_not_shorter)

lemma IsOidPartOf_examples:
  "IsOidPartOf ''.1.3.6.1.1.5.1.1'' ''.1.3.6.1.1.5'' = Inr True"
  "IsOidPartOf ''.1.3.6.1.1.50'' ''.1.3.6.1.1.5'' = Inr False"
  "IsOidPartOf ''.1.10'' ''.1.1'' = Inr False"
  by (simp_all add: IsOidPartOf_def slice_to_def slice_def IsOid_def is_digit_def)

text \<open>
  C3. The claim has \<open>IsOidPartOf\<close> return false, without failing, when both arguments
  are valid paths and the child is shorter than the parent. The code evaluates
  \<open>oid[:lenBase]\<close> without comparing the lengths first: for two valid OIDs with
  \<open>oid\<close> shorter than \<open>baseOid\<close> the slice expression is out of range and the call
  panics.
\<close>

theorem IsOidPartOf_shorter_panics:
  assumes "IsOid oid" "IsOid baseOid" "length oid < length baseOid"
  shows "IsOidPartOf oid baseOid = Inl SliceBoundsOutOfRange"
  using assms by (simp add: IsOidPartOf_def slice_to_def slice_def)

theorem IsOidPartOf_shorter_panics_witness:
  "IsOid ''.1'' \<and> IsOid ''.1.2'' \<and> length ''.1'' < length ''.1.2'' \<and>
   IsOidPartOf ''.1'' ''.1.2'' = Inl SliceBoundsOutOfRange"
proof -
  have h: "IsOid ''.1''" "IsOid ''.1.2''" "length ''.1'' < length ''.1.2''"
    by (simp_all add: IsOid_def is_digit_def)
  from h IsOidPartOf_shorter_panics [OF h] show ?thesis
    by blast
qed

subsection \<open>GetSubOid\<close>

lemma GetSubOid_below:
  assumes "IsOid oid" "IsOid baseOid" "prefix (baseOid @ ''.'') oid"
  shows "GetSubOid oid baseOid = Inr (drop (length baseOid + 1) oid)"
proof -
  from assms(3) have "length baseOid + 1 \<le> length oid"
    by (auto simp: prefix_def)
  with assms show ?thesis
    by (simp add: GetSubOid_def IsOidPartOf_not_shorter slice_from_def slice_def)
qed


lemma GetSubOid_example: "GetSubOid ''.1.3.6.1.1.5.1.1'' ''.1.3.6.1.1.5'' = Inr ''1.1''"
  by (simp add: GetSubOid_def IsOidPartOf_def slice_from_def slice_to_def slice_def
      IsOid_def is_digit_def)

text \<open>
  C2. The claim has \<open>GetSubOid\<close> return the empty string on equal valid paths. In the
  code \<open>IsOidPartOf p p\<close> is true, so the guard does not return, and \<open>oid[l+1:]\<close> with
  \<open>l = len(oid)\<close> is out of range: for every valid \<open>p\<close> the call panics.
\<close>

theorem GetSubOid_equal_panics:
  assumes "IsOid p"
  shows "GetSubOid p p = Inl SliceBoundsOutOfRange"
  using assms by (simp add: GetSubOid_def IsOidPartOf_refl slice_from_def slice_def)

theorem GetSubOid_equal_panics_witness:
  "IsOid ''.1.3'' \<and> GetSubOid ''.1.3'' ''.1.3'' = Inl SliceBoundsOutOfRange"
proof -
  have h: "IsOid ''.1.3''"
    by (simp add: IsOid_def is_digit_def)
  from h GetSubOid_equal_panics [OF h] show ?thesis
    by blast
qed


section \<open>Properties of SetVersion and of its caller\<close>

text \<open>
  C10. \<open>SetVersion\<close> called with \<open>"3"\<close> assigns \<open>Version3\<close> to the client's \<open>Version\<close>
  field and also returns the error "SNMPv3 config not implemented": a client that was
  set to another version is changed by the call although the call fails.
\<close>

theorem SetVersion_3_assigns_and_fails:
  "SetVersion client ''3'' = (client\<lparr>Version := Version3\<rparr>, Some ''SNMPv3 config not implemented'')
   \<and> fst (SetVersion (client\<lparr>Version := Version2c\<rparr>) ''3'') \<noteq> client\<lparr>Version := Version2c\<rparr>"
proof -
  have "Version (fst (SetVersion (client\<lparr>Version := Version2c\<rparr>) ''3'')) = Version3"
    by (simp add: SetVersion_def)
  moreover have "Version (client\<lparr>Version := Version2c\<rparr>) = Version2c"
    by simp
  ultimately have "fst (SetVersion (client\<lparr>Version := Version2c\<rparr>) ''3'') \<noteq> client\<lparr>Version := Version2c\<rparr>"
    by (metis SnmpVersion.distinct(5))
  then show ?thesis
    by (simp add: SetVersion_def)
qed

theorem SetVersion_3_assigns_and_fails_witness:
  "Version example_client = Version2c \<and>
   Version (fst (SetVersion example_client ''3'')) = Version3 \<and>
   snd (SetVersion example_client ''3'') = Some ''SNMPv3 config not implemented''"
  using SetVersion_3_assigns_and_fails [of example_client]
  by (simp add: example_client_def)

lemma SetVersion_error:
  assumes "version \<notin> {''1'', ''2'', ''2c''}"
  shows "snd (SetVersion client version) =
           Some (if version = ''3'' then ''SNMPv3 config not implemented''
                 else ''unknown SNMP version: '' @ version)"
  using assms by (simp add: SetVersion_def)

lemma SetVersion_no_error:
  assumes "version \<in> {''1'', ''2'', ''2c''}"
  shows "snd (SetVersion client version) = None"
  using assms by (auto simp: SetVersion_def)

text \<open>
  C6. For every version string other than \<open>"1"\<close>, \<open>"2"\<close> and \<open>"2c"\<close>, \<open>SetVersion\<close> returns
  an error; and \<open>main\<close> of main.go, which calls \<open>SetVersion\<close> when no capture file is
  given, ends the run with that error (status UNKNOWN) having made no other call: it
  has neither connected nor walked the table.
\<close>

theorem unrecognized_version_is_fatal:
  assumes "version \<notin> {''1'', ''2'', ''2c''}"
  shows "snd (SetVersion client version) \<noteq> None \<and>
         (snmpwalk_file f = [] \<and> protocol f = version \<longrightarrow>
            exit_code (main_go w f) = rc Unknown \<and>
            calls (main_go w f) = [Call_SetVersion] \<and>
            snd (SetVersion client version) = Some (message (main_go w f)))"
proof -
  let ?err = "if version = ''3'' then ''SNMPv3 config not implemented''
              else ''unknown SNMP version: '' @ version"
  have err: "snd (SetVersion c version) = Some ?err" for c
    using assms by (rule SetVersion_error)
  have "main_go w f = nagios_ExitError ?err [Call_SetVersion]"
    if "snmpwalk_file f = []" "protocol f = version"
  proof -
    let ?c = "(gosnmp_Default w)\<lparr>Target := hostname f, Community := community f,
               Timeout := timeout f * 1000000000, Retries := 1\<rparr>"
    obtain c' where "SetVersion ?c version = (c', Some ?err)"
      using err [of ?c] by (cases "SetVersion ?c version") simp
    with that show ?thesis
      by (simp add: main_go_def main_go_table_def)
  qed
  then show ?thesis
    using err [of client] by (simp add: nagios_ExitError_def nagios_Exit_def)
qed

theorem unrecognized_version_is_fatal_witness:
  "''4'' \<notin> {''1'', ''2'', ''2c''} \<and>
   snmpwalk_file (example_flags\<lparr>protocol := ''4''\<rparr>) = [] \<and>
   snd (SetVersion example_client ''4'') \<noteq> None \<and>
   exit_code (main_go example_world (example_flags\<lparr>protocol := ''4''\<rparr>)) = 3 \<and>
   calls (main_go example_world (example_flags\<lparr>protocol := ''4''\<rparr>)) = [Call_SetVersion]"
proof -
  have h: "''4'' \<notin> {''1'', ''2'', ''2c''}"
    by simp
  have f: "snmpwalk_file (example_flags\<lparr>protocol := ''4''\<rparr>) = []"
          "protocol (example_flags\<lparr>protocol := ''4''\<rparr>) = ''4''"
    by (simp_all add: example_flags_def)
  from h f unrecognized_version_is_fatal [OF h, of example_client "example_flags\<lparr>protocol := ''4''\<rparr>" example_world]
  show ?thesis
    by simp
qed


section \<open>Properties of the aggregator\<close>

lemma Add_fields:
  "OKs (Add ov s m) = OKs ov + (if s = OK then 1 else 0)"
  "Warnings (Add ov s m) = Warnings ov + (if s = Warning then 1 else 0)"
  "Criticals (Add ov s m) = Criticals ov + (if s = Critical then 1 else 0)"
  "Unknowns (Add ov s m) = Unknowns ov + (if s = Unknown then 1 else 0)"
  "Outputs (Add ov s m) = Outputs ov @ [m]"
  "Summary (Add ov s m) = Summary ov"
  by (cases s; simp)+

lemma foldl_Add_fields:
  fixes adds :: "(severity \<times> string) list"
  defines "run \<equiv> foldl (\<lambda>ov (state, msg). Add ov state msg)"
  shows "OKs (run ov adds) = OKs ov + count_list (map fst adds) OK"
    and "Warnings (run ov adds) = Warnings ov + count_list (map fst adds) Warning"
    and "Criticals (run ov adds) = Criticals ov + count_list (map fst adds) Critical"
    and "Unknowns (run ov adds) = Unknowns ov + count_list (map fst adds) Unknown"
    and "Outputs (run ov adds) = Outputs ov @ map snd adds"
    and "Summary (run ov adds) = Summary ov"
  unfolding run_def
  by (induction adds arbitrary: ov; simp add: Add_fields split: prod.splits)+

lemma count_list_pos: "0 < count_list xs x \<longleftrightarrow> x \<in> set xs"
  by (induction xs) auto

lemma count_list_severities:
  "count_list xs OK + count_list xs Warning + count_list xs Critical + count_list xs Unknown
     = length xs"
proof (induction xs)
  case Nil
  show ?case by simp
next
  case (Cons x xs)
  then show ?case by (cases x) simp_all
qed

text \<open>
  C9. After any sequence of \<open>Add\<close> calls on a fresh aggregator, \<open>GetStatus\<close> is CRITICAL
  if a CRITICAL was added, else WARNING if a WARNING was added, else OK if anything was
  added, else UNKNOWN; the log holds the messages in the order of the calls, and the
  rendered output is the summary line followed by these messages in that order.
\<close>

theorem Overall_of_Add_calls:
  "GetStatus (add_all adds) =
     (if Critical \<in> set (map fst adds) then Critical
      else if Warning \<in> set (map fst adds) then Warning
      else if adds \<noteq> [] then OK
      else Unknown)
   \<and> Outputs (add_all adds) = map snd adds
   \<and> GetOutput ((add_all adds)\<lparr>Summary := summary\<rparr>) = join_lines (summary # map snd adds)"
proof -
  let ?sev = "map fst adds"
  have c: "Criticals (add_all adds) = count_list ?sev Critical"
    and w: "Warnings (add_all adds) = count_list ?sev Warning"
    and o: "OKs (add_all adds) = count_list ?sev OK"
    and u: "Unknowns (add_all adds) = count_list ?sev Unknown"
    and out: "Outputs (add_all adds) = map snd adds"
    by (simp_all add: add_all_def foldl_Add_fields Overall_zero_def)
  have total: "OKs (add_all adds) + Warnings (add_all adds) + Criticals (add_all adds)
                 + Unknowns (add_all adds) = length adds"
    using count_list_severities [of ?sev] by (simp add: c w o u)
  have "GetStatus (add_all adds) =
          (if Critical \<in> set ?sev then Critical
           else if Warning \<in> set ?sev then Warning
           else if adds \<noteq> [] then OK
           else Unknown)"
    unfolding GetStatus_def total
    by (simp only: c w count_list_pos length_greater_0_conv)
  moreover have "GetOutput ((add_all adds)\<lparr>Summary := summary\<rparr>) = join_lines (summary # map snd adds)"
    by (simp add: GetOutput_def out)
  ultimately show ?thesis
    using out by blast
qed

theorem Overall_of_Add_calls_witness:
  "GetStatus (add_all [(OK, ''first''), (Critical, ''second'')]) = Critical \<and>
   Outputs (add_all [(OK, ''first''), (Critical, ''second'')]) = [''first'', ''second''] \<and>
   GetStatus (add_all [(OK, ''first''), (Warning, ''second'')]) = Warning \<and>
   GetStatus (add_all [(OK, ''first'')]) = OK \<and>
   GetStatus (add_all []) = Unknown"
  using Overall_of_Add_calls [of "[(OK, ''first''), (Critical, ''second'')]"]
    Overall_of_Add_calls [of "[(OK, ''first''), (Warning, ''second'')]"]
    Overall_of_Add_calls [of "[(OK, ''first'')]"]
    Overall_of_Add_calls [of "[]"]
  by simp

section \<open>Properties of the drive evaluation\<close>

lemma test_drive_ok:
  "GetNagiosStatus [(affectedDrive, affectedDriveFixed)] revision_at_least test_drive
     = (OK, ''(1.1 ) model=OTHERDRIVE serial=ABC123 firmware=HPD1 hours=1337'')"
  by (simp add: GetNagiosStatus_def description_def pad_right_def fmt_d_def test_drive_def
      affectedDrive_def affectedDriveFixed_def)

text \<open>
  C7. For every drive whose model is in the list of affected models and whose status
  is \<open>ok\<close>: with a firmware revision below the revision that carries the fix the result
  is CRITICAL with a message containing "affected", and with a revision at or above it
  the result is OK with a message containing "applied". The same model gives both
  results, so the model alone does not decide.
\<close>

theorem affected_model_by_firmware:
  assumes "map_of affected (Model d) = Some fix" and "Status d = ''ok''"
  shows "(\<not> at_least (FwRev d) fix \<longrightarrow>
            fst (GetNagiosStatus affected at_least d) = Critical \<and>
            sublist ''affected'' (snd (GetNagiosStatus affected at_least d)))
       \<and> (at_least (FwRev d) fix \<longrightarrow>
            fst (GetNagiosStatus affected at_least d) = OK \<and>
            sublist ''applied'' (snd (GetNagiosStatus affected at_least d)))"
proof -
  have a: "sublist ''affected'' (description d @ '' - affected by FW bug'')"
    using sublist_appendI [of "''affected''" "description d @ '' - ''" "'' by FW bug''"]
    by simp
  have b: "sublist ''applied'' (description d @ '' - firmware update applied'')"
    using sublist_append_leftI [of "''applied''" "description d @ '' - firmware update ''"]
    by simp
  from assms a b show ?thesis
    by (simp add: GetNagiosStatus_def)
qed

theorem affected_model_by_firmware_witness:
  "map_of [(affectedDrive, affectedDriveFixed)] (Model (test_drive\<lparr>Model := affectedDrive\<rparr>))
     = Some affectedDriveFixed \<and>
   Status (test_drive\<lparr>Model := affectedDrive\<rparr>) = ''ok'' \<and>
   \<not> revision_at_least ''HPD1'' affectedDriveFixed \<and>
   revision_at_least ''HPD8'' affectedDriveFixed \<and>
   fst (GetNagiosStatus [(affectedDrive, affectedDriveFixed)] revision_at_least
          (test_drive\<lparr>Model := affectedDrive\<rparr>)) = Critical \<and>
   sublist ''affected''
     (snd (GetNagiosStatus [(affectedDrive, affectedDriveFixed)] revision_at_least
          (test_drive\<lparr>Model := affectedDrive\<rparr>))) \<and>
   fst (GetNagiosStatus [(affectedDrive, affectedDriveFixed)] revision_at_least
          (test_drive\<lparr>Model := affectedDrive, FwRev := ''HPD8''\<rparr>)) = OK \<and>
   sublist ''applied''
     (snd (GetNagiosStatus [(affectedDrive, affectedDriveFixed)] revision_at_least
          (test_drive\<lparr>Model := affectedDrive, FwRev := ''HPD8''\<rparr>)))"
proof -
  let ?t = "[(affectedDrive, affectedDriveFixed)]"
  let ?d1 = "test_drive\<lparr>Model := affectedDrive\<rparr>"
  let ?d8 = "test_drive\<lparr>Model := affectedDrive, FwRev := ''HPD8''\<rparr>"
  have m: "map_of ?t (Model ?d1) = Some affectedDriveFixed"
          "map_of ?t (Model ?d8) = Some affectedDriveFixed"
    by simp_all
  have s: "Status ?d1 = ''ok''" "Status ?d8 = ''ok''"
    by (simp_all add: test_drive_def)
  have r: "\<not> revision_at_least ''HPD1'' affectedDriveFixed"
          "revision_at_least ''HPD8'' affectedDriveFixed"
    by (simp_all add: revision_at_least_def trailing_number_def is_digit_def affectedDriveFixed_def)
  have f: "FwRev ?d1 = ''HPD1''" "FwRev ?d8 = ''HPD8''"
    by (simp_all add: test_drive_def)
  from r f
    affected_model_by_firmware [OF m(1) s(1), of revision_at_least]
    affected_model_by_firmware [OF m(2) s(2), of revision_at_least]
  have "fst (GetNagiosStatus ?t revision_at_least ?d1) = Critical"
       "sublist ''affected'' (snd (GetNagiosStatus ?t revision_at_least ?d1))"
       "fst (GetNagiosStatus ?t revision_at_least ?d8) = OK"
       "sublist ''applied'' (snd (GetNagiosStatus ?t revision_at_least ?d8))"
    by simp_all
  with m(1) s(1) r show ?thesis
    by (intro conjI)
qed

text \<open>
  C8. For every drive whose status is \<open>failed\<close> the result is CRITICAL with a message
  containing "status: failed", whatever the model, the firmware, the list of affected
  models and the order on revisions are.
\<close>

theorem failed_status_is_critical:
  assumes "Status d = ''failed''"
  shows "fst (GetNagiosStatus affected at_least d) = Critical \<and>
         sublist ''status: failed'' (snd (GetNagiosStatus affected at_least d))"
proof -
  have "sublist ''status: failed'' (description d @ '' - status: failed'')"
    using sublist_append_leftI [of "''status: failed''" "description d @ '' - ''"]
    by simp
  with assms show ?thesis
    by (simp add: GetNagiosStatus_def)
qed

theorem failed_status_is_critical_witness:
  "Status (test_drive\<lparr>Status := ''failed''\<rparr>) = ''failed'' \<and>
   fst (GetNagiosStatus [(affectedDrive, affectedDriveFixed)] revision_at_least
          (test_drive\<lparr>Status := ''failed''\<rparr>)) = Critical \<and>
   sublist ''status: failed''
     (snd (GetNagiosStatus [(affectedDrive, affectedDriveFixed)] revision_at_least
          (test_drive\<lparr>Status := ''failed''\<rparr>)))"
proof -
  have h: "Status (test_drive\<lparr>Status := ''failed''\<rparr>) = ''failed''"
    by simp
  from h failed_status_is_critical [OF h] show ?thesis
    by (intro conjI) simp_all
qed

lemma revision_examples:
  "\<not> revision_at_least ''HPD1'' ''HPD8''" "revision_at_least ''HPD8'' ''HPD8''"
  by (simp_all add: revision_at_least_def trailing_number_def is_digit_def)

lemma test_drive_failed:
  "GetNagiosStatus [(affectedDrive, affectedDriveFixed)] revision_at_least
     (test_drive\<lparr>Status := ''failed''\<rparr>)
     = (Critical, ''(1.1 ) model=OTHERDRIVE serial=ABC123 firmware=HPD1 hours=1337 - status: failed'')"
  by (simp add: GetNagiosStatus_def description_def pad_right_def fmt_d_def test_drive_def)

lemma test_drive_affected:
  "GetNagiosStatus [(affectedDrive, affectedDriveFixed)] revision_at_least
     (test_drive\<lparr>Model := affectedDrive\<rparr>)
     = (Critical, ''(1.1 ) model=VO0480JFDGT serial=ABC123 firmware=HPD1 hours=1337 - affected by FW bug'')"
  by (simp add: GetNagiosStatus_def description_def pad_right_def fmt_d_def test_drive_def
      revision_at_least_def trailing_number_def is_digit_def affectedDrive_def affectedDriveFixed_def)

lemma test_drive_fixed:
  "GetNagiosStatus [(affectedDrive, affectedDriveFixed)] revision_at_least
     (test_drive\<lparr>Model := affectedDrive, FwRev := affectedDriveFixed\<rparr>)
     = (OK, ''(1.1 ) model=VO0480JFDGT serial=ABC123 firmware=HPD8 hours=1337 - firmware update applied'')"
  by (simp add: GetNagiosStatus_def description_def pad_right_def fmt_d_def test_drive_def
      revision_at_least_def trailing_number_def is_digit_def affectedDrive_def affectedDriveFixed_def)

section \<open>Properties of the programs\<close>


text \<open>
  C1, as claimed, has the drive records of the same run still extracted and evaluated.
  At an empty controller table and a drive table with one value, the run makes no call
  to \<open>GetPhysicalDrivesFromTable\<close> and none to \<open>GetNagiosStatus\<close> of the drive.
\<close>

theorem drives_not_evaluated_counterexample:
  "Values (Snmp no_values) = [] \<and> Values (Snmp one_value) \<noteq> [] \<and>
   phy_drv_GetPhysicalDrivesFromTable example_hp one_value = Inr [test_drive] \<and>
   exit_code (main example_hp no_values one_value) = 3 \<and>
   Call_GetPhysicalDrivesFromTable \<notin> set (calls (main example_hp no_values one_value)) \<and>
   Call_Drive_GetNagiosStatus test_drive \<notin> set (calls (main example_hp no_values one_value))"
  by (simp add: main_def nagios_Exit_def no_values_def one_value_def example_hp_def)

text \<open>
  C1, as amended. When the controller table holds no values, the run ends at once with
  status UNKNOWN and the message "No HP controller data found!", whatever the drive
  table holds: no call is made, so the drives are neither extracted nor evaluated.
\<close>

theorem empty_controller_table_ends_run:
  assumes "Values (Snmp cntlrTable) = []"
  shows "main pkg cntlrTable driveTable =
           \<lparr>exit_code = 3, message = ''No HP controller data found!'', calls = []\<rparr>"
  using assms by (simp add: main_def nagios_Exit_def)

theorem empty_controller_table_ends_run_witness:
  "Values (Snmp no_values) = [] \<and>
   main example_hp no_values no_values =
     \<lparr>exit_code = 3, message = ''No HP controller data found!'', calls = []\<rparr>"
proof -
  have h: "Values (Snmp no_values) = []"
    by (simp add: no_values_def)
  from h empty_controller_table_ends_run [OF h] show ?thesis
    by (intro conjI)
qed





end
